theory Spec2Isabelle
  imports Main "HOL-Library.AList"
begin

section \<open>Python strings\<close>

text \<open>
  A Python \<open>str\<close> is modelled as a \<open>string\<close>, one \<open>char\<close> per code point, so that
  \<open>length\<close> is Python's \<open>len\<close>. The string operations the program uses are
  written out as list functions.
\<close>

text \<open>\<open>s.startswith(p)\<close> and \<open>s.endswith(p)\<close>.\<close>

definition startswith :: "'a list \<Rightarrow> 'a list \<Rightarrow> bool" where
  "startswith s p = (take (length p) s = p)"

definition endswith :: "'a list \<Rightarrow> 'a list \<Rightarrow> bool" where
  "endswith s p = (length p \<le> length s \<and> drop (length s - length p) s = p)"

text \<open>\<open>s.startswith((p1, p2, ...))\<close>: the tuple form.\<close>

definition startswith_any :: "'a list \<Rightarrow> 'a list list \<Rightarrow> bool" where
  "startswith_any s ps = list_ex (startswith s) ps"

text \<open>
  \<open>s.replace(old, new)\<close>: every non-overlapping occurrence of \<open>old\<close>, found from the
  left, is replaced. With an empty \<open>old\<close> Python puts \<open>new\<close> before every character
  and at the end.
\<close>

fun replace :: "'a list \<Rightarrow> 'a list \<Rightarrow> 'a list \<Rightarrow> 'a list" where
  "replace [] new s = new @ concat (map (\<lambda>c. c # new) s)"
| "replace (a # old) new [] = []"
| "replace (a # old) new (c # s) =
     (if startswith (c # s) (a # old)
      then new @ replace (a # old) new (drop (length old) s)
      else c # replace (a # old) new s)"

section \<open>The identifier of a URL\<close>

text \<open>
  The first statement of \<open>scrape_website\<close>: a chain of nine \<open>replace\<close> calls on
  \<open>request.url\<close>, then the cut to 100 characters with the suffix \<open>_hash\<close>.
\<close>

definition url_id_replaced :: "string \<Rightarrow> string" where
  "url_id_replaced url =
     replace ''&'' ''_'' (replace ''='' ''_'' (replace ''?'' ''_'' (replace '':'' ''_''
       (replace ''.'' ''_'' (replace ''/'' ''_''
         (replace ''www.'' '''' (replace ''http://'' '''' (replace ''https://'' '''' url))))))))"

definition url_id :: "string \<Rightarrow> string" where
  "url_id url =
     (let r = url_id_replaced url
      in if length r > 100 then take 100 r @ ''_hash'' else r)"


text \<open>
  The contract of the specification, in its own words, for comparison with \<open>url_id\<close>:
  strip the scheme \<open>https://\<close> or \<open>http://\<close> and a leading \<open>www.\<close>, replace each of
  the characters \<open>/ . : ? = &\<close> with an underscore, cut to 100 characters with the
  suffix when longer.
\<close>

definition subst_char :: "char \<Rightarrow> char" where
  "subst_char c = (if c \<in> set ''/.:?=&'' then CHR ''_'' else c)"

definition url_id_spec :: "string \<Rightarrow> string" where
  "url_id_spec url =
     (let a = (if startswith url ''https://'' then drop 8 url
               else if startswith url ''http://'' then drop 7 url else url);
          b = (if startswith a ''www.'' then drop 4 a else a);
          r = map subst_char b
      in if length r > 100 then take 100 r @ ''_hash'' else r)"

text \<open>\<open>p in s\<close> for strings: \<open>p\<close> occurs somewhere in \<open>s\<close>.\<close>

fun contains :: "'a list \<Rightarrow> 'a list \<Rightarrow> bool" where
  "contains [] p = (p = [])"
| "contains (c # s) p = (startswith (c # s) p \<or> contains s p)"

section \<open>More of Python's strings\<close>

text \<open>
  \<open>str.isspace\<close> on one character, for the code points below 256: tab, line feed,
  vertical tab, form feed, carriage return, the separators 0x1C to 0x1F, space,
  next line (0x85) and the no-break space (0xA0).
\<close>

definition isspace :: "char \<Rightarrow> bool" where
  "isspace c = (c \<in> set [CHR 0x09, CHR 0x0A, CHR 0x0B, CHR 0x0C, CHR 0x0D,
                           CHR 0x1C, CHR 0x1D, CHR 0x1E, CHR 0x1F, CHR 0x20, CHR 0x85, CHR 0xA0])"

text \<open>\<open>s.lstrip()\<close>, \<open>s.rstrip()\<close>, \<open>s.strip()\<close> and \<open>s.lstrip(chars)\<close>.\<close>

definition lstrip :: "string \<Rightarrow> string" where
  "lstrip s = dropWhile isspace s"

definition rstrip :: "string \<Rightarrow> string" where
  "rstrip s = rev (dropWhile isspace (rev s))"

definition strip :: "string \<Rightarrow> string" where
  "strip s = rstrip (lstrip s)"

definition lstrip_chars :: "string \<Rightarrow> string \<Rightarrow> string" where
  "lstrip_chars s chars = dropWhile (\<lambda>c. c \<in> set chars) s"

text \<open>
  The slice \<open>s[a:-b]\<close> for \<open>b > 0\<close>: from index \<open>a\<close> to \<open>b\<close> characters before the end,
  empty when the two bounds cross (on \<open>nat\<close>, \<open>length s - b\<close> is 0 when \<open>s\<close> is shorter
  than \<open>b\<close>, as Python's bound is).
\<close>

definition slice_to_end :: "nat \<Rightarrow> nat \<Rightarrow> 'a list \<Rightarrow> 'a list" where
  "slice_to_end a b s = drop a (take (length s - b) s)"

text \<open>\<open>str(n)\<close> for a non-negative integer, as the f-strings print a status code.\<close>

fun str_nat :: "nat \<Rightarrow> string" where
  "str_nat n =
     (if n < 10 then [char_of (48 + n)]
      else str_nat (n div 10) @ [char_of (48 + n mod 10)])"

text \<open>
  Truthiness of an optional string (\<open>if x:\<close>, \<open>not x\<close>): \<open>None\<close> and the empty string
  are false.
\<close>

definition truthy :: "string option \<Rightarrow> bool" where
  "truthy x = (case x of None \<Rightarrow> False | Some s \<Rightarrow> s \<noteq> [])"

text \<open>\<open>os.path.join(a, b)\<close> on POSIX paths.\<close>

definition path_join :: "string \<Rightarrow> string \<Rightarrow> string" where
  "path_join a b =
     (if startswith b ''/'' then b
      else if a = [] \<or> endswith a ''/'' then a @ b
      else a @ ''/'' @ b)"

declare str_nat.simps [simp del]

section \<open>Exceptions and responses\<close>

text \<open>
  The exceptions the handlers tell apart: \<open>httpx.RequestError\<close> (with \<open>str(exc)\<close>),
  \<open>httpx.HTTPStatusError\<close> (with \<open>str(exc)\<close>, the response's status code and text),
  \<open>json.JSONDecodeError\<close>, and any other \<open>Exception\<close> (with \<open>str(e)\<close>).
\<close>

datatype exn =
    RequestError string
  | HTTPStatusError string nat string
  | JSONDecodeError string
  | Exception string

text \<open>\<open>str(e)\<close>: the message of an exception.\<close>

fun str_exn :: "exn \<Rightarrow> string" where
  "str_exn (RequestError m) = m"
| "str_exn (HTTPStatusError m code body) = m"
| "str_exn (JSONDecodeError m) = m"
| "str_exn (Exception m) = m"

text \<open>
  What an endpoint gives its caller when it does not return: the \<open>HTTPException\<close> it
  raised (status code and detail), or an exception nothing caught.
\<close>

datatype failure = HTTPException nat string | Uncaught exn

section \<open>The data model\<close>

text \<open>
  \<open>ScrapedData\<close>, with its fields prefixed \<open>sd_\<close>. An optional field of the
  Pydantic model is an \<open>option\<close>. \<open>assets\<close> is a dict, kept as an association list in
  the order of insertion.
\<close>

type_synonym assets = "(string \<times> string list) list"

record ScrapedData =
  sd_id :: string
  sd_url :: string
  sd_html_content :: "string option"
  sd_screenshot_path :: "string option"
  sd_assets :: "assets option"
  sd_title :: "string option"

text \<open>
  The dict \<open>scraped_data\<close>, from id to record, as an association list: an assignment
  \<open>d[k] = v\<close> is \<open>AList.update k v d\<close> (the value replaced in place, or the entry
  added at the end), \<open>k in d\<close> is \<open>map_of d k \<noteq> None\<close>.
\<close>

type_synonym store = "(string \<times> ScrapedData) list"

text \<open>
  A JSON value, and the Python values other than a dict that \<open>json.load\<close> returns for a
  JSON document: \<open>None\<close>, a bool, an int, a float (kept as its literal), a string, a
  list.
\<close>

datatype json =
    JNull
  | JBool bool
  | JInt int
  | JFloat string
  | JString string
  | JArray "json list"
  | JObject "(string \<times> json) list"

datatype non_dict =
    Py_None
  | Py_bool bool
  | Py_int int
  | Py_float string
  | Py_str string
  | Py_list "json list"

text \<open>What \<open>load_scraped_data\<close> returns: the dict of records, or another value.\<close>

datatype loaded = Dict store | Other non_dict

text \<open>
  The file \<open>scraped_data.json\<close>:
  \<^item> \<open>Absent\<close>: no such file;
  \<^item> \<open>Unreadable m\<close>: a file on which \<open>open\<close> or the read inside \<open>json.load\<close> raises an
    exception other than \<open>JSONDecodeError\<close>, with message \<open>m\<close> (a file that is not UTF-8
    text raises \<open>UnicodeDecodeError\<close>; a file that may not be read, \<open>PermissionError\<close>);
  \<^item> \<open>Invalid_JSON\<close>: a text on which \<open>json.load\<close> raises \<open>JSONDecodeError\<close>;
  \<^item> \<open>Not_A_Dict v\<close>: a JSON document that is not an object, loaded as \<open>v\<close>;
  \<^item> \<open>Stored data\<close>: a JSON object from ids to records, as \<open>save_scraped_data\<close> writes
    it.
  The values of a JSON object in the file are taken to be records, as the response model
  \<open>Dict[str, ScrapedData]\<close> of the read endpoint declares them.
\<close>

datatype store_file =
    Absent
  | Unreadable string
  | Invalid_JSON
  | Not_A_Dict non_dict
  | Stored store

text \<open>The dict that \<open>scrape_website\<close> returns, with its keys prefixed \<open>res_\<close>.\<close>

record summary =
  res_success :: bool
  res_url :: string
  res_title :: "string option"
  res_id :: string
  res_html_content_length :: nat
  res_screenshot_url :: "string option"
  res_assets_count :: "(string \<times> nat) list"

text \<open>
  The parsed document, as far as the program reads it: \<open>soup.title\<close> (\<open>None\<close> without a
  title element, else its \<open>.string\<close>, which is \<open>None\<close> for a title without a single
  string), and the attribute values that the three \<open>find_all\<close> calls give, in document
  order.
\<close>

record soup =
  soup_title :: "string option option"
  img_srcs :: "string list"
  stylesheet_hrefs :: "string list"
  script_srcs :: "string list"

text \<open>
  The content blocks of the prompt (a text, or an image with its media type and its
  base64 data), and the request to the model: the model name, \<open>max_tokens\<close>, the system
  prompt and the messages, each a role with its blocks. The argument
  \<open>temperature=0.2\<close>, a floating-point constant, is left out.
\<close>

datatype block = TextBlock string | ImageBlock string string

record llm_request =
  llm_model :: string
  llm_max_tokens :: nat
  llm_system :: string
  llm_messages :: "(string \<times> block list) list"

record CloneResponse =
  cr_success :: bool
  cr_cloned_html :: "string option"
  cr_message :: "string option"

section \<open>The collaborators\<close>

text \<open>
  Everything outside the program is a parameter: what each external call returns or
  raises.
  \<^item> \<open>http_get url\<close>: \<open>client.get(url)\<close>, \<open>raise_for_status()\<close> and \<open>res.text\<close>;
  \<^item> \<open>html_parse html\<close>: \<open>BeautifulSoup(html, 'html.parser')\<close> and its queries;
  \<^item> \<open>url_join base src\<close>: \<open>str(httpx.URL(base).join(src))\<close>, where the base is the URL
    that the fetch has accepted;
  \<^item> \<open>browser_launch\<close>: \<open>async_playwright()\<close>, \<open>chromium.launch()\<close> and \<open>new_page()\<close>;
  \<^item> \<open>page_capture url path\<close>: \<open>page.goto(url, ...)\<close> and \<open>page.screenshot(path, ...)\<close>;
  \<^item> \<open>browser_close\<close>: \<open>browser.close()\<close>;
  \<^item> \<open>getcwd\<close>, \<open>path_exists\<close>: \<open>os.getcwd()\<close>, \<open>os.path.exists\<close> on a screenshot path;
  \<^item> \<open>read_b64 path\<close>: the file read and base64-encoded;
  \<^item> \<open>messages_create req\<close>: \<open>client.messages.create(...)\<close> and \<open>.content[0].text\<close>.
  Reading and writing \<open>scraped_data.json\<close> is part of the state, not of the
  collaborators.
\<close>

record env =
  http_get :: "string \<Rightarrow> exn + string"
  html_parse :: "string \<Rightarrow> exn + soup"
  url_join :: "string \<Rightarrow> string \<Rightarrow> exn + string"
  browser_launch :: "exn option"
  page_capture :: "string \<Rightarrow> string \<Rightarrow> exn option"
  browser_close :: "exn option"
  getcwd :: string
  path_exists :: "string \<Rightarrow> bool"
  read_b64 :: "string \<Rightarrow> exn + string"
  messages_create :: "llm_request \<Rightarrow> exn + string"

section \<open>The record store\<close>

definition SCREENSHOTS_DIR :: string where
  "SCREENSHOTS_DIR = ''public/screenshots''"

text \<open>\<open>os.path.exists(SCRAPED_DATA_FILE)\<close>, and \<open>json.load\<close> on the open file.\<close>

definition data_file_exists :: "store_file \<Rightarrow> bool" where
  "data_file_exists f = (f \<noteq> Absent)"

definition json_load :: "store_file \<Rightarrow> exn + loaded" where
  "json_load f =
     (case f of
        Stored data \<Rightarrow> Inr (Dict data)
      | Not_A_Dict v \<Rightarrow> Inr (Other v)
      | Invalid_JSON \<Rightarrow> Inl (JSONDecodeError ''Expecting value'')
      | Unreadable m \<Rightarrow> Inl (Exception m)
      | Absent \<Rightarrow> Inl (Exception ''FileNotFoundError''))"

text \<open>
  Only \<open>JSONDecodeError\<close> is caught; any other exception of the \<open>with\<close> block leaves the
  function.
\<close>

definition load_scraped_data :: "store_file \<Rightarrow> exn + loaded" where
  "load_scraped_data f =
     (if data_file_exists f
      then (case json_load f of
              Inr data \<Rightarrow> Inr data
            | Inl (JSONDecodeError m) \<Rightarrow> Inr (Dict [])
            | Inl e \<Rightarrow> Inl e)
      else Inr (Dict []))"

text \<open>
  The operations of the endpoints on the loaded value, with the \<open>TypeError\<close> that a value
  other than a dict raises (messages as CPython 3.11 words them): the assignment
  \<open>scraped_data[k] = v\<close>, the test \<open>k in scraped_data\<close> (a key of a dict, a substring of
  a string, an element of a list) and the read \<open>scraped_data[k]\<close>.
\<close>

fun type_name :: "non_dict \<Rightarrow> string" where
  "type_name Py_None = ''NoneType''"
| "type_name (Py_bool b) = ''bool''"
| "type_name (Py_int i) = ''int''"
| "type_name (Py_float x) = ''float''"
| "type_name (Py_str s) = ''str''"
| "type_name (Py_list xs) = ''list''"

definition quoted :: "string \<Rightarrow> string" where
  "quoted s = [CHR 0x27] @ s @ [CHR 0x27]"

fun setitem :: "loaded \<Rightarrow> string \<Rightarrow> ScrapedData \<Rightarrow> exn + store" where
  "setitem (Dict d) k v = Inr (AList.update k v d)"
| "setitem (Other (Py_list xs)) k v =
     Inl (Exception ''list indices must be integers or slices, not str'')"
| "setitem (Other x) k v =
     Inl (Exception (quoted (type_name x) @ '' object does not support item assignment''))"

fun contains_key :: "loaded \<Rightarrow> string \<Rightarrow> exn + bool" where
  "contains_key (Dict d) k = Inr (map_of d k \<noteq> None)"
| "contains_key (Other (Py_str s)) k = Inr (contains s k)"
| "contains_key (Other (Py_list xs)) k = Inr (JString k \<in> set xs)"
| "contains_key (Other x) k =
     Inl (Exception (''argument of type '' @ quoted (type_name x) @ '' is not iterable''))"

fun getitem :: "loaded \<Rightarrow> string \<Rightarrow> exn + ScrapedData" where
  "getitem (Dict d) k =
     (case map_of d k of Some v \<Rightarrow> Inr v | None \<Rightarrow> Inl (Exception (quoted k)))"
| "getitem (Other (Py_str s)) k =
     Inl (Exception (''string indices must be integers, not '' @ quoted ''str''))"
| "getitem (Other (Py_list xs)) k =
     Inl (Exception ''list indices must be integers or slices, not str'')"
| "getitem (Other x) k =
     Inl (Exception (quoted (type_name x) @ '' object is not subscriptable''))"

definition save_scraped_data :: "store \<Rightarrow> store_file" where
  "save_scraped_data data = Stored data"

section \<open>The scrape endpoint\<close>

text \<open>
  One of the three loops under \<open>SCRAPE ASSETS\<close>: for every source value that does not
  start with \<open>data:\<close> or \<open>#\<close>, the URL joined to the base is appended to
  \<open>assets[key]\<close>; a join that raises is printed and passed over.
\<close>

fun asset_loop :: "(string \<Rightarrow> exn + string) \<Rightarrow> string \<Rightarrow> string list \<Rightarrow> assets \<Rightarrow> assets" where
  "asset_loop join key [] assets = assets"
| "asset_loop join key (src # rest) assets =
     (if \<not> startswith_any src [''data:'', ''#'']
      then (case join src of
              Inr resolved_url \<Rightarrow>
                asset_loop join key rest (AList.map_entry key (\<lambda>l. l @ [resolved_url]) assets)
            | Inl e \<Rightarrow> asset_loop join key rest assets)
      else asset_loop join key rest assets)"

definition scrape_assets :: "env \<Rightarrow> string \<Rightarrow> soup \<Rightarrow> assets" where
  "scrape_assets env url sp =
     (let assets = [(''images'', []), (''stylesheets'', []), (''scripts'', [])];
          assets = asset_loop (url_join env url) ''images'' (img_srcs sp) assets;
          assets = asset_loop (url_join env url) ''stylesheets'' (stylesheet_hrefs sp) assets;
          assets = asset_loop (url_join env url) ''scripts'' (script_srcs sp) assets
      in assets)"

text \<open>\<open>len(assets[key])\<close>; the three keys read are there from the start.\<close>

definition asset_count :: "assets \<Rightarrow> string \<Rightarrow> nat" where
  "asset_count assets key = (case map_of assets key of Some l \<Rightarrow> length l | None \<Rightarrow> 0)"

text \<open>
  The body of the \<open>try\<close> block, with the file passed through: an exception leaves the
  block at the call that raised it, with the file as it is then. The id is the
  variable \<open>url_id\<close> of the source, here \<open>uid\<close>. The inner \<open>try\<close> around \<open>page.goto\<close>
  and \<open>page.screenshot\<close> turns any exception of theirs into an absent screenshot path;
  \<open>browser.close()\<close> runs in its \<open>finally\<close>. The assignment to \<open>scraped_data\<close> raises
  when the loaded value is not a dict.
\<close>

definition scrape_try :: "env \<Rightarrow> string \<Rightarrow> string \<Rightarrow> loaded \<Rightarrow> store_file \<Rightarrow> (exn + summary) \<times> store_file" where
  "scrape_try env url uid scraped_data file =
     (case http_get env url of
        Inl exc \<Rightarrow> (Inl exc, file)
      | Inr html_content \<Rightarrow>
     (case html_parse env html_content of
        Inl exc \<Rightarrow> (Inl exc, file)
      | Inr sp \<Rightarrow>
          let title = (case soup_title sp of Some t \<Rightarrow> t | None \<Rightarrow> Some ''Title not found'');
              assets = scrape_assets env url sp;
              screenshot_filename = uid @ ''.png'';
              screenshot_path = path_join SCREENSHOTS_DIR screenshot_filename;
              relative_screenshot_path = ''/public/screenshots/'' @ screenshot_filename
          in
     (case browser_launch env of
        Some exc \<Rightarrow> (Inl exc, file)
      | None \<Rightarrow>
          let relative_screenshot_path =
                (case page_capture env url screenshot_path of
                   None \<Rightarrow> Some relative_screenshot_path
                 | Some e \<Rightarrow> None)
          in
     (case browser_close env of
        Some exc \<Rightarrow> (Inl exc, file)
      | None \<Rightarrow>
          let new_scraped_entry =
                \<lparr>sd_id = uid, sd_url = url, sd_html_content = Some html_content,
                 sd_screenshot_path = relative_screenshot_path, sd_assets = Some assets,
                 sd_title = title\<rparr>
          in
     (case setitem scraped_data uid new_scraped_entry of
        Inl exc \<Rightarrow> (Inl exc, file)
      | Inr scraped_data \<Rightarrow>
          let file = save_scraped_data scraped_data
          in (Inr \<lparr>res_success = True, res_url = url, res_title = title, res_id = uid,
                    res_html_content_length = length html_content,
                    res_screenshot_url = relative_screenshot_path,
                    res_assets_count =
                      [(''images'', asset_count assets ''images''),
                       (''stylesheets'', asset_count assets ''stylesheets''),
                       (''scripts'', asset_count assets ''scripts''),
                       (''links'', 0)]\<rparr>, file))))))"

text \<open>The three \<open>except\<close> clauses, in their order.\<close>

fun scrape_except :: "string \<Rightarrow> exn \<Rightarrow> failure" where
  "scrape_except url (RequestError m) =
     HTTPException 500 (''An error occurred while requesting '' @ url @ '': '' @ m)"
| "scrape_except url (HTTPStatusError m code body) =
     HTTPException code (''HTTP error '' @ str_nat code @ '' occurred while fetching ''
                          @ url @ '': '' @ body)"
| "scrape_except url e =
     HTTPException 500 (''An unexpected error occurred: '' @ str_exn e)"

definition scrape_website :: "env \<Rightarrow> string \<Rightarrow> store_file \<Rightarrow> (failure + summary) \<times> store_file" where
  "scrape_website env url file =
     (let uid = url_id url
      in case load_scraped_data file of
           Inl e \<Rightarrow> (Inl (Uncaught e), file)
         | Inr scraped_data \<Rightarrow>
             (case scrape_try env url uid scraped_data file of
                (Inl exc, file') \<Rightarrow> (Inl (scrape_except url exc), file')
              | (Inr result, file') \<Rightarrow> (Inr result, file')))"

text \<open>A run of scrape requests, each with the collaborators as they answer it.\<close>

fun scrape_all :: "(env \<times> string) list \<Rightarrow> store_file \<Rightarrow> store_file" where
  "scrape_all [] file = file"
| "scrape_all ((env, url) # reqs) file = scrape_all reqs (snd (scrape_website env url file))"

section \<open>The read endpoint\<close>

definition get_scraped_data :: "store_file \<Rightarrow> failure + loaded" where
  "get_scraped_data file =
     (case load_scraped_data file of Inl e \<Rightarrow> Inl (Uncaught e) | Inr data \<Rightarrow> Inr data)"

section \<open>The clone endpoint\<close>

definition NL :: string where
  "NL = [CHR 0x0A]"

definition DOCTYPE :: string where
  "DOCTYPE = ''<!DOCTYPE html>''"

text \<open>The system prompt: a line feed, then six lines, each indented by four spaces.\<close>

definition system_prompt :: string where
  "system_prompt =
     NL @ ''    You are an expert web developer specializing in creating accurate HTML clones of websites.''
     @ NL @ ''    Your primary objective is to replicate the visual appearance of the provided website screenshot as precisely as possible. Every detail matters: layout, colors, font styles, spacing, element sizes, and component design.''
     @ NL @ ''    The final output must be a single, complete, and valid HTML file. All CSS must be embedded within a `<style>` tag in the `<head>`, and any necessary JavaScript within a `<script>` tag just before `</body>`.''
     @ NL @ ''    Do not include any external stylesheets, scripts, or frameworks unless their use is explicitly verifiable from the provided raw HTML content.''
     @ NL @ ''    For images shown in the screenshot, use `<img>` tags and reference their original URLs if possible. If not, create a visually appropriate placeholder.''
     @ NL @ ''    Thank you!''"

text \<open>
  The repair of the model's text, after \<open>cloned_html = response.content[0].text\<close>:
  the two fence tests with their slices, then the declaration put in front when the
  stripped text does not start with it.
\<close>

definition clean_cloned_html :: "string \<Rightarrow> string" where
  "clean_cloned_html raw =
     (let cloned_html =
            (if startswith raw ''```html'' \<and> endswith raw ''```''
             then strip (slice_to_end 7 3 raw)
             else if startswith raw ''```'' \<and> endswith raw ''```''
             then strip (slice_to_end 3 3 raw)
             else raw)
      in if \<not> startswith (strip cloned_html) DOCTYPE
         then DOCTYPE @ NL @ cloned_html
         else cloned_html)"

text \<open>The blocks of the user message, in the order they are appended.\<close>

definition user_message_content :: "env \<Rightarrow> string option \<Rightarrow> string option \<Rightarrow> block list" where
  "user_message_content env html_content actual_screenshot_file_path =
     [case html_content of
        Some html \<Rightarrow>
          if html \<noteq> []
          then TextBlock (''Here is the raw HTML content of the original website, provided as additional context. Analyze its structure but prioritize the visual outcome from the screenshot:''
                          @ NL @ NL @ ''```html'' @ NL @ html @ NL @ ''```'')
          else TextBlock ''No raw HTML content available. Please rely solely on the visual screenshot.''
      | None \<Rightarrow> TextBlock ''No raw HTML content available. Please rely solely on the visual screenshot.'']
     @ (case actual_screenshot_file_path of
          Some path \<Rightarrow>
            if path \<noteq> [] \<and> path_exists env path
            then (case read_b64 env path of
                    Inr encoded_image \<Rightarrow>
                      [ImageBlock ''image/png'' encoded_image,
                       TextBlock ''Here is the visual screenshot of the website that you must replicate:'']
                  | Inl e \<Rightarrow> [TextBlock ''Error loading screenshot.''])
            else [TextBlock ''No screenshot available or file not found.'']
        | None \<Rightarrow> [TextBlock ''No screenshot available or file not found.''])
     @ [TextBlock ''Please provide the complete HTML code for the cloned website, starting directly with `<!DOCTYPE html>`.'']"

text \<open>
  The endpoint returns its response, or the failure it raised, and the list of the
  requests it sent to the model. The argument \<open>uid\<close> is \<open>request.url_id\<close>. The test
  \<open>url_id not in scraped_data\<close> and the read \<open>scraped_data[url_id]\<close> stand before the
  \<open>try\<close>: an exception of theirs is not caught.
\<close>

definition clone_website_with_llm :: "env \<Rightarrow> string \<Rightarrow> store_file \<Rightarrow> (failure + CloneResponse) \<times> llm_request list" where
  "clone_website_with_llm env uid file =
     (case load_scraped_data file of
        Inl e \<Rightarrow> (Inl (Uncaught e), [])
      | Inr scraped_data \<Rightarrow>
     (case contains_key scraped_data uid of
        Inl e \<Rightarrow> (Inl (Uncaught e), [])
      | Inr False \<Rightarrow>
          (Inl (HTTPException 404 ''Scraped data not found for this URL ID.''), [])
      | Inr True \<Rightarrow>
     (case getitem scraped_data uid of
        Inl e \<Rightarrow> (Inl (Uncaught e), [])
      | Inr data \<Rightarrow>
          let html_content = sd_html_content data;
              screenshot_path_for_file = sd_screenshot_path data;
              actual_screenshot_file_path =
                (case screenshot_path_for_file of
                   Some p \<Rightarrow>
                     if p \<noteq> [] then Some (path_join (getcwd env) (lstrip_chars p ''/''))
                     else None
                 | None \<Rightarrow> None)
          in if \<not> truthy html_content \<and> \<not> truthy actual_screenshot_file_path
             then (Inl (HTTPException 400 ''No HTML content or screenshot available for cloning.''), [])
             else
               let req = \<lparr>llm_model = ''claude-4-sonnet-20250514'', llm_max_tokens = 4000,
                          llm_system = system_prompt,
                          llm_messages =
                            [(''user'', user_message_content env html_content
                                          actual_screenshot_file_path)]\<rparr>
               in (case messages_create env req of
                     Inr cloned_html \<Rightarrow>
                       (Inr \<lparr>cr_success = True,
                             cr_cloned_html = Some (clean_cloned_html cloned_html),
                             cr_message = None\<rparr>, [req])
                   | Inl e \<Rightarrow>
                       (Inl (HTTPException 500 (''LLM cloning failed: '' @ str_exn e)), [req])))))"

section \<open>Example collaborators\<close>

text \<open>
  A small page and collaborators that answer every call, for evaluating the endpoints:
  the fetch returns a page, the screenshot times out, the screenshot file is missing.
\<close>

definition ex_soup :: soup where
  "ex_soup =
     \<lparr>soup_title = Some (Some ''Example''),
      img_srcs = [''img/x.png'', ''data:image/png;base64,AAAA'', ''#top''],
      stylesheet_hrefs = [''style.css''],
      script_srcs = [''app.js'', ''#'']\<rparr>"

definition ex_env :: env where
  "ex_env =
     \<lparr>http_get = (\<lambda>u. Inr ''<html></html>''),
      html_parse = (\<lambda>h. Inr ex_soup),
      url_join = (\<lambda>b s. Inr (b @ s)),
      browser_launch = None,
      page_capture = (\<lambda>u p. Some (Exception ''Timeout 90000ms exceeded'')),
      browser_close = None,
      getcwd = ''/app'',
      path_exists = (\<lambda>p. False),
      read_b64 = (\<lambda>p. Inl (Exception ''FileNotFoundError'')),
      messages_create = (\<lambda>r. Inr ''<p>hi</p>'')\<rparr>"

text \<open>
  The same, with a browser that does not start, with a browser that fails to close, and
  with a fetch answered by 404.
\<close>

definition ex_env_no_browser :: env where
  "ex_env_no_browser = ex_env\<lparr>browser_launch := Some (Exception ''Executable does not exist'')\<rparr>"

definition ex_env_close_fails :: env where
  "ex_env_close_fails = ex_env\<lparr>browser_close := Some (Exception ''Target closed'')\<rparr>"

definition ex_env_404 :: env where
  "ex_env_404 = ex_env\<lparr>http_get := (\<lambda>u. Inl (HTTPStatusError ''Client error'' 404 ''Not Found''))\<rparr>"

text \<open>
  A run of three requests whose URLs have the same id (the second is answered by 404),
  a store with one record that has neither markup nor screenshot, and a page whose
  sources are all inline.
\<close>

definition ex_reqs :: "(env \<times> string) list" where
  "ex_reqs = [(ex_env, ''https://www.site.com/''), (ex_env_404, ''https://site.com/''),
              (ex_env, ''http://site.com/'')]"

definition ex_store :: store where
  "ex_store =
     [(''empty_com'',
       \<lparr>sd_id = ''empty_com'', sd_url = ''https://empty.com'', sd_html_content = None,
        sd_screenshot_path = None, sd_assets = None, sd_title = None\<rparr>)]"

definition ex_soup_inline :: soup where
  "ex_soup_inline =
     \<lparr>soup_title = None,
      img_srcs = [''data:image/png;base64,AAAA'', ''#top''],
      stylesheet_hrefs = [''#print''],
      script_srcs = [''data:text/javascript,0'']\<rparr>"

section \<open>Predicates of the statements\<close>

text \<open>A record as the endpoint writes it: its \<open>assets\<close> has the three keys, in order.\<close>

definition three_keys :: "ScrapedData \<Rightarrow> bool" where
  "three_keys r =
     (case sd_assets r of
        None \<Rightarrow> False
      | Some a \<Rightarrow> map fst a = [''images'', ''stylesheets'', ''scripts''])"

section \<open>Properties of the identifier\<close>

text \<open>
  A string that lacks one character of \<open>old\<close> has no occurrence of it, and \<open>replace\<close>
  returns it as it is; \<open>replace\<close> of one character by one character is a \<open>map\<close>.
\<close>

lemma startswith_subset: "startswith s p \<Longrightarrow> set p \<subseteq> set s"
  unfolding startswith_def by (metis set_take_subset)

lemma replace_absent:
  "\<not> set (a # old) \<subseteq> set s \<Longrightarrow> replace (a # old) new s = s"
proof (induction s)
  case Nil
  then show ?case by simp
next
  case (Cons c s)
  have n: "\<not> startswith (c # s) (a # old)"
    using Cons.prems startswith_subset by blast
  have "\<not> set (a # old) \<subseteq> set s"
    using Cons.prems by auto
  with Cons.IH n show ?case by simp
qed

lemma replace_single:
  "replace [c] [d] s = map (\<lambda>x. if x = c then d else x) s"
  by (induction s) (auto simp: startswith_def)

lemma url_id_replaced_map:
  "url_id_replaced url =
     map subst_char (replace ''www.'' '''' (replace ''http://'' '''' (replace ''https://'' '''' url)))"
  unfolding url_id_replaced_def replace_single
  by (simp add: subst_char_def comp_def)

lemma url_id_replaced_clean: "set (url_id_replaced url) \<inter> set ''/.:?=&'' = {}"
  unfolding url_id_replaced_map by (auto simp: subst_char_def)

lemma url_id_clean: "set (url_id url) \<inter> set ''/.:?=&'' = {}"
  using url_id_replaced_clean [of url]
  by (auto simp: url_id_def Let_def dest: in_set_takeD)

lemma url_id_replaced_fix:
  assumes "set s \<inter> set ''/.:?=&'' = {}"
  shows "url_id_replaced s = s"
proof -
  have 1: "replace ''https://'' '''' s = s" using assms by (intro replace_absent) auto
  have 2: "replace ''http://'' '''' s = s" using assms by (intro replace_absent) auto
  have 3: "replace ''www.'' '''' s = s" using assms by (intro replace_absent) auto
  have 4: "replace ''/'' ''_'' s = s" using assms by (intro replace_absent) auto
  have 5: "replace ''.'' ''_'' s = s" using assms by (intro replace_absent) auto
  have 6: "replace '':'' ''_'' s = s" using assms by (intro replace_absent) auto
  have 7: "replace ''?'' ''_'' s = s" using assms by (intro replace_absent) auto
  have 8: "replace ''='' ''_'' s = s" using assms by (intro replace_absent) auto
  have 9: "replace ''&'' ''_'' s = s" using assms by (intro replace_absent) auto
  show ?thesis unfolding url_id_replaced_def by (simp only: 1 2 3 4 5 6 7 8 9)
qed

text \<open>
  Claim C1: the identifier of an identifier is the identifier itself, for every URL
  string; the cut to 100 characters with its suffix is covered, since the second pass
  cuts at the same place and appends the same suffix.
\<close>

theorem url_id_idempotent: "url_id (url_id url) = url_id url"
proof -
  have fx: "url_id_replaced (url_id url) = url_id url"
    by (rule url_id_replaced_fix) (rule url_id_clean)
  show ?thesis
  proof (cases "length (url_id_replaced url) > 100")
    case True
    then have v: "url_id url = take 100 (url_id_replaced url) @ ''_hash''"
      by (simp add: url_id_def)
    have "length (url_id url) > 100" using True unfolding v by simp
    moreover have "take 100 (url_id url) = take 100 (url_id_replaced url)"
      using True unfolding v by simp
    ultimately have "url_id (url_id url) = take 100 (url_id_replaced url) @ ''_hash''"
      unfolding url_id_def [of "url_id url"] fx by (simp add: Let_def)
    then show ?thesis using v by simp
  next
    case False
    then have v: "url_id url = url_id_replaced url"
      by (simp add: url_id_def)
    show ?thesis
      unfolding url_id_def [of "url_id url"] fx using False v by (simp add: Let_def)
  qed
qed


text \<open>The cut, on a URL of 120 letters: 100 of them and the suffix, and a fixed point.\<close>

lemma url_id_long_example:
  "url_id (replicate 120 (CHR ''a'')) = replicate 100 (CHR ''a'') @ ''_hash''
   \<and> url_id (replicate 100 (CHR ''a'') @ ''_hash'') = replicate 100 (CHR ''a'') @ ''_hash''"
  by code_simp

text \<open>
  Where the code and the words of the specification agree: on a URL made of an optional
  scheme, an optional \<open>www.\<close> and a rest in which none of the three substrings occurs.
\<close>

lemma replace_not_contains:
  "\<not> contains s (a # old) \<Longrightarrow> replace (a # old) new s = s"
  by (induction s) auto

lemma replace_prefix:
  "replace (a # old) new ((a # old) @ s) = new @ replace (a # old) new s"
  by (simp add: startswith_def)

lemma not_contains_startswith: "\<not> contains s p \<Longrightarrow> p \<noteq> [] \<Longrightarrow> \<not> startswith s p"
  by (cases s) (auto simp: startswith_def)

lemma replace_not_contains':
  "p \<noteq> [] \<Longrightarrow> \<not> contains t p \<Longrightarrow> replace p new t = t"
  by (cases p) (simp_all add: replace_not_contains)

lemma url_id_replaced_plain:
  assumes sch: "scheme \<in> {''https://'', ''http://'', ''''}" and w: "w \<in> {''www.'', ''''}"
    and a: "\<not> contains rest ''https://''" and b: "\<not> contains rest ''http://''"
    and c: "\<not> contains rest ''www.''"
  shows "replace ''www.'' '''' (replace ''http://'' '''' (replace ''https://'' '''' (scheme @ w @ rest))) = rest"
proof -
  have k1: "\<not> contains (w @ rest) ''https://''"
    using w a by (elim insertE emptyE) (simp_all add: startswith_def)
  have k2: "\<not> contains (w @ rest) ''http://''"
    using w b by (elim insertE emptyE) (simp_all add: startswith_def)
  have k3: "\<not> contains (''http://'' @ w @ rest) ''https://''"
    using k1 by (simp add: startswith_def)
  have s1: "replace ''https://'' '''' (w @ rest) = w @ rest"
    using k1 by (simp add: replace_not_contains')
  have s2: "replace ''http://'' '''' (w @ rest) = w @ rest"
    using k2 by (simp add: replace_not_contains')
  have s3: "replace ''www.'' '''' (w @ rest) = rest"
  proof -
    have "replace ''www.'' '''' rest = rest"
      using c by (simp add: replace_not_contains')
    moreover have "replace ''www.'' '''' (''www.'' @ rest) = replace ''www.'' '''' rest"
      using replace_prefix [of "CHR ''w''" "''ww.''" "''''" rest] by simp
    ultimately show ?thesis using w by auto
  qed
  have s4: "replace ''http://'' '''' (replace ''https://'' '''' (scheme @ w @ rest)) = w @ rest"
  proof -
    consider "scheme = ''https://''" | "scheme = ''http://''" | "scheme = ''''"
      using sch by blast
    then show ?thesis
    proof cases
      case 1
      have "replace ''https://'' '''' (''https://'' @ w @ rest) = replace ''https://'' '''' (w @ rest)"
        using replace_prefix [of "CHR ''h''" "''ttps://''" "''''" "w @ rest"] by simp
      then show ?thesis using 1 s1 s2 by simp
    next
      case 2
      have "replace ''https://'' '''' (''http://'' @ w @ rest) = ''http://'' @ w @ rest"
        using k3 by (simp add: replace_not_contains')
      moreover have "replace ''http://'' '''' (''http://'' @ w @ rest) = replace ''http://'' '''' (w @ rest)"
        using replace_prefix [of "CHR ''h''" "''ttp://''" "''''" "w @ rest"] by simp
      ultimately show ?thesis using 2 s2 by simp
    next
      case 3
      then show ?thesis using s1 s2 by simp
    qed
  qed
  show ?thesis using s3 s4 by simp
qed

lemma url_id_spec_plain:
  assumes sch: "scheme \<in> {''https://'', ''http://'', ''''}" and w: "w \<in> {''www.'', ''''}"
    and a: "\<not> contains rest ''https://''" and b: "\<not> contains rest ''http://''"
    and c: "\<not> contains rest ''www.''"
  shows "url_id_spec (scheme @ w @ rest) =
     (let r = map subst_char rest in if length r > 100 then take 100 r @ ''_hash'' else r)"
proof -
  have n: "\<not> startswith rest ''https://''" "\<not> startswith rest ''http://''"
    "\<not> startswith rest ''www.''"
    using a b c by (simp_all add: not_contains_startswith)
  have w1: "\<not> startswith (w @ rest) ''https://''" "\<not> startswith (w @ rest) ''http://''"
    using w n by (auto simp: startswith_def)
  have w2: "(if startswith (w @ rest) ''www.'' then drop 4 (w @ rest) else w @ rest) = rest"
    using w n by (auto simp: startswith_def)
  have "(if startswith (scheme @ w @ rest) ''https://'' then drop 8 (scheme @ w @ rest)
         else if startswith (scheme @ w @ rest) ''http://'' then drop 7 (scheme @ w @ rest)
         else scheme @ w @ rest) = w @ rest"
  proof -
    consider "scheme = ''https://''" | "scheme = ''http://''" | "scheme = ''''"
      using sch by blast
    then show ?thesis
    proof cases
      case 1 then show ?thesis by (simp add: startswith_def)
    next
      case 2 then show ?thesis by (simp add: startswith_def)
    next
      case 3 then show ?thesis using w1 by simp
    qed
  qed
  then show ?thesis
    unfolding url_id_spec_def using w2 by (simp only: Let_def)
qed

lemma url_id_plain:
  assumes "scheme \<in> {''https://'', ''http://'', ''''}" and "w \<in> {''www.'', ''''}"
    and "\<not> contains rest ''https://''" and "\<not> contains rest ''http://''"
    and "\<not> contains rest ''www.''"
  shows "url_id (scheme @ w @ rest) = url_id_spec (scheme @ w @ rest)"
  unfolding url_id_def url_id_replaced_map
    url_id_replaced_plain [OF assms] url_id_spec_plain [OF assms] ..

text \<open>
  Claim C2, as stated, fails: the three \<open>replace\<close> calls remove \<open>https://\<close>,
  \<open>http://\<close> and \<open>www.\<close> wherever they occur, not only at the start. On
  \<open>https://example.com/www.html\<close> the code gives \<open>example_com_html\<close>, while stripping the
  scheme and a leading \<open>www.\<close> only gives \<open>example_com_www_html\<close>.
\<close>

theorem url_id_strips_inner_occurrences:
  "url_id ''https://example.com/www.html'' = ''example_com_html''
   \<and> url_id_spec ''https://example.com/www.html'' = ''example_com_www_html''"
  by (simp add: url_id_def url_id_replaced_def url_id_spec_def startswith_def subst_char_def)

text \<open>
  Claim C2, amended: for every URL string the identifier is obtained by removing every
  occurrence of \<open>https://\<close>, then of \<open>http://\<close>, then of \<open>www.\<close>, replacing each of the
  characters \<open>/ . : ? = &\<close> with an underscore, and, exactly when the result is longer
  than 100 characters, cutting it to 100 and appending \<open>_hash\<close>; and
  \<open>https://www.example.com/a?b=1\<close> maps to \<open>example_com_a_b_1\<close>.
\<close>

theorem url_id_contract:
  "url_id url =
     (let r = map subst_char
                (replace ''www.'' '''' (replace ''http://'' '''' (replace ''https://'' '''' url)))
      in if length r > 100 then take 100 r @ ''_hash'' else r)
   \<and> (length (url_id_replaced url) > 100) = (url_id url = take 100 (url_id_replaced url) @ ''_hash'')
   \<and> url_id ''https://www.example.com/a?b=1'' = ''example_com_a_b_1''"
proof (intro conjI)
  show "url_id url =
     (let r = map subst_char
                (replace ''www.'' '''' (replace ''http://'' '''' (replace ''https://'' '''' url)))
      in if length r > 100 then take 100 r @ ''_hash'' else r)"
    unfolding url_id_def url_id_replaced_map ..
  show "(length (url_id_replaced url) > 100) = (url_id url = take 100 (url_id_replaced url) @ ''_hash'')"
  proof (cases "length (url_id_replaced url) > 100")
    case True
    then show ?thesis by (simp add: url_id_def)
  next
    case False
    then have "length (url_id url) \<noteq> length (take 100 (url_id_replaced url) @ ''_hash'')"
      by (simp add: url_id_def)
    then have "url_id url \<noteq> take 100 (url_id_replaced url) @ ''_hash''" by metis
    with False show ?thesis by simp
  qed
  show "url_id ''https://www.example.com/a?b=1'' = ''example_com_a_b_1''"
    by (simp add: url_id_def url_id_replaced_def startswith_def)
qed

section \<open>Properties of the asset resolver\<close>

text \<open>
  The loops change the lists under the three keys and nothing else; a source that
  starts with \<open>data:\<close> or \<open>#\<close> can be deleted from the document without changing the
  result; every URL in the result is the join of a source that starts with neither.
\<close>

lemma map_fst_map_entry: "map fst (AList.map_entry k f al) = map fst al"
  by (induction al) auto

lemma asset_loop_keys: "map fst (asset_loop join key srcs assets) = map fst assets"
  by (induction srcs arbitrary: assets) (auto simp: map_fst_map_entry split: sum.splits)

lemma scrape_assets_keys:
  "map fst (scrape_assets env url sp) = [''images'', ''stylesheets'', ''scripts'']"
  by (simp add: scrape_assets_def Let_def asset_loop_keys)

lemma asset_loop_filter:
  "asset_loop join key (filter (\<lambda>s. \<not> startswith s ''data:'' \<and> \<not> startswith s ''#'') srcs) assets
     = asset_loop join key srcs assets"
  by (induction srcs arbitrary: assets) (auto simp: startswith_any_def split: sum.splits)

lemma asset_loop_provenance:
  assumes "map_of (asset_loop join key srcs assets) k = Some urls" and "u \<in> set urls"
  shows "(\<exists>old. map_of assets k = Some old \<and> u \<in> set old)
         \<or> (k = key \<and> (\<exists>src \<in> set srcs. \<not> startswith src ''data:'' \<and> \<not> startswith src ''#''
                              \<and> join src = Inr u))"
  using assms
proof (induction srcs arbitrary: assets)
  case Nil
  then show ?case by simp
next
  case (Cons src rest)
  show ?case
  proof (cases "\<not> startswith_any src [''data:'', ''#'']")
    case False
    then have "asset_loop join key (src # rest) assets = asset_loop join key rest assets"
      by simp
    then show ?thesis using Cons.IH [of assets] Cons.prems by auto
  next
    case True
    note keep = this
    show ?thesis
    proof (cases "join src")
      case (Inl e)
      then have "asset_loop join key (src # rest) assets = asset_loop join key rest assets"
        using keep by simp
      then show ?thesis using Cons.IH [of assets] Cons.prems by auto
    next
      case (Inr v)
      let ?a = "AList.map_entry key (\<lambda>l. l @ [v]) assets"
      have "asset_loop join key (src # rest) assets = asset_loop join key rest ?a"
        using keep Inr by simp
      then have "(\<exists>old. map_of ?a k = Some old \<and> u \<in> set old)
         \<or> (k = key \<and> (\<exists>src \<in> set rest. \<not> startswith src ''data:'' \<and> \<not> startswith src ''#''
                              \<and> join src = Inr u))"
        using Cons.IH [of ?a] Cons.prems by simp
      moreover have "(\<exists>old'. map_of assets k = Some old' \<and> u \<in> set old') \<or> (k = key \<and> u = v)"
        if "map_of ?a k = Some old" "u \<in> set old" for old
        using that by (auto simp: map_of_map_entry split: if_splits option.splits)
      moreover have "\<not> startswith src ''data:'' \<and> \<not> startswith src ''#''"
        using keep by (simp add: startswith_any_def)
      ultimately show ?thesis using Inr by auto
    qed
  qed
qed

lemma scrape_assets_provenance:
  assumes "map_of (scrape_assets env url sp) key = Some urls" and "u \<in> set urls"
  shows "\<exists>src. src \<in> set (if key = ''images'' then img_srcs sp
                           else if key = ''stylesheets'' then stylesheet_hrefs sp
                           else script_srcs sp)
               \<and> \<not> startswith src ''data:'' \<and> \<not> startswith src ''#''
               \<and> url_join env url src = Inr u"
proof -
  define a0 :: assets where "a0 = [(''images'', []), (''stylesheets'', []), (''scripts'', [])]"
  define a1 where "a1 = asset_loop (url_join env url) ''images'' (img_srcs sp) a0"
  define a2 where "a2 = asset_loop (url_join env url) ''stylesheets'' (stylesheet_hrefs sp) a1"
  define a3 where "a3 = asset_loop (url_join env url) ''scripts'' (script_srcs sp) a2"
  define ok where "ok srcs \<longleftrightarrow> (\<exists>src \<in> set srcs. \<not> startswith src ''data:''
                      \<and> \<not> startswith src ''#'' \<and> url_join env url src = Inr u)" for srcs
  define inside where "inside a \<longleftrightarrow> (\<exists>old. map_of a key = Some old \<and> u \<in> set old)"
    for a :: assets
  have step: "inside a \<or> (key = k \<and> ok srcs)"
    if "inside (asset_loop (url_join env url) k srcs a)" for k srcs a
    using that asset_loop_provenance [of "url_join env url" k srcs a key _ u]
    unfolding inside_def ok_def by blast
  have "scrape_assets env url sp = a3"
    by (simp add: scrape_assets_def Let_def a0_def a1_def a2_def a3_def)
  then have 3: "inside a3"
    using assms by (auto simp: inside_def)
  have 0: "\<not> inside a0"
    by (auto simp: inside_def a0_def)
  have "inside a2 \<or> (key = ''scripts'' \<and> ok (script_srcs sp))"
    using 3 step unfolding a3_def by blast
  moreover have "inside a1 \<or> (key = ''stylesheets'' \<and> ok (stylesheet_hrefs sp))"
    if "inside a2"
    using that step unfolding a2_def by blast
  moreover have "key = ''images'' \<and> ok (img_srcs sp)"
    if "inside a1"
    using that step 0 unfolding a1_def by blast
  ultimately have "key = ''images'' \<and> ok (img_srcs sp)
        \<or> key = ''stylesheets'' \<and> ok (stylesheet_hrefs sp)
        \<or> key = ''scripts'' \<and> ok (script_srcs sp)"
    by blast
  then show ?thesis unfolding ok_def by auto
qed

lemma scrape_assets_filter:
  "scrape_assets env url sp =
     scrape_assets env url
       (sp\<lparr>img_srcs := filter (\<lambda>s. \<not> startswith s ''data:'' \<and> \<not> startswith s ''#'') (img_srcs sp),
           stylesheet_hrefs :=
             filter (\<lambda>s. \<not> startswith s ''data:'' \<and> \<not> startswith s ''#'') (stylesheet_hrefs sp),
           script_srcs :=
             filter (\<lambda>s. \<not> startswith s ''data:'' \<and> \<not> startswith s ''#'') (script_srcs sp)\<rparr>)"
  by (simp add: scrape_assets_def Let_def asset_loop_filter)

lemma scrape_assets_all_inline:
  assumes "\<forall>src \<in> set (img_srcs sp @ stylesheet_hrefs sp @ script_srcs sp).
             startswith src ''data:'' \<or> startswith src ''#''"
  shows "scrape_assets env url sp = [(''images'', []), (''stylesheets'', []), (''scripts'', [])]"
proof -
  have "filter (\<lambda>s. \<not> startswith s ''data:'' \<and> \<not> startswith s ''#'') (img_srcs sp) = []"
    "filter (\<lambda>s. \<not> startswith s ''data:'' \<and> \<not> startswith s ''#'') (stylesheet_hrefs sp) = []"
    "filter (\<lambda>s. \<not> startswith s ''data:'' \<and> \<not> startswith s ''#'') (script_srcs sp) = []"
    using assms by (auto simp: filter_empty_conv)
  then show ?thesis
    by (subst scrape_assets_filter) (simp add: scrape_assets_def)
qed

text \<open>
  Claim C7: for every parsed document and base URL, a source value of an image,
  stylesheet link or script that begins with \<open>data:\<close> or \<open>#\<close> contributes nothing to
  \<open>assets\<close>: the result is the same with these sources deleted from the document, every
  URL under a key is the join of a source of that category that begins with neither,
  and a document whose sources all begin with one of them gives three empty lists.
\<close>

theorem assets_skip_inline_sources:
  "scrape_assets env url sp =
     scrape_assets env url
       (sp\<lparr>img_srcs := filter (\<lambda>s. \<not> startswith s ''data:'' \<and> \<not> startswith s ''#'') (img_srcs sp),
           stylesheet_hrefs :=
             filter (\<lambda>s. \<not> startswith s ''data:'' \<and> \<not> startswith s ''#'') (stylesheet_hrefs sp),
           script_srcs :=
             filter (\<lambda>s. \<not> startswith s ''data:'' \<and> \<not> startswith s ''#'') (script_srcs sp)\<rparr>)
   \<and> (\<forall>key urls u.
         map_of (scrape_assets env url sp) key = Some urls \<and> u \<in> set urls \<longrightarrow>
         (\<exists>src. src \<in> set (if key = ''images'' then img_srcs sp
                           else if key = ''stylesheets'' then stylesheet_hrefs sp
                           else script_srcs sp)
               \<and> \<not> startswith src ''data:'' \<and> \<not> startswith src ''#''
               \<and> url_join env url src = Inr u))
   \<and> ((\<forall>src \<in> set (img_srcs sp @ stylesheet_hrefs sp @ script_srcs sp).
          startswith src ''data:'' \<or> startswith src ''#'') \<longrightarrow>
        scrape_assets env url sp = [(''images'', []), (''stylesheets'', []), (''scripts'', [])])"
  using scrape_assets_filter [of env url sp] scrape_assets_provenance [of env url sp]
    scrape_assets_all_inline [of sp env url]
  by (intro conjI allI impI) (assumption | elim conjE)+

theorem assets_skip_inline_sources_witness:
  "(\<exists>src. src \<in> set (img_srcs ex_soup)
        \<and> \<not> startswith src ''data:'' \<and> \<not> startswith src ''#''
        \<and> url_join ex_env ''https://site.com/'' src = Inr ''https://site.com/img/x.png'')
   \<and> scrape_assets ex_env ''https://site.com/'' ex_soup_inline
       = [(''images'', []), (''stylesheets'', []), (''scripts'', [])]"
proof -
  have 1: "map_of (scrape_assets ex_env ''https://site.com/'' ex_soup) ''images''
             = Some [''https://site.com/img/x.png'']"
    by (simp add: scrape_assets_def ex_env_def ex_soup_def startswith_any_def startswith_def)
  have 2: "''https://site.com/img/x.png'' \<in> set [''https://site.com/img/x.png'']"
    by simp
  have 3: "\<forall>src \<in> set (img_srcs ex_soup_inline @ stylesheet_hrefs ex_soup_inline
                          @ script_srcs ex_soup_inline).
             startswith src ''data:'' \<or> startswith src ''#''"
    by (simp add: ex_soup_inline_def startswith_def)
  have "\<exists>src. src \<in> set (if ''images'' = ''images'' then img_srcs ex_soup
                           else if ''images'' = ''stylesheets'' then stylesheet_hrefs ex_soup
                           else script_srcs ex_soup)
               \<and> \<not> startswith src ''data:'' \<and> \<not> startswith src ''#''
               \<and> url_join ex_env ''https://site.com/'' src = Inr ''https://site.com/img/x.png''"
    using assets_skip_inline_sources [of ex_env "''https://site.com/''" ex_soup] 1 2 by blast
  then have a: "\<exists>src. src \<in> set (img_srcs ex_soup)
        \<and> \<not> startswith src ''data:'' \<and> \<not> startswith src ''#''
        \<and> url_join ex_env ''https://site.com/'' src = Inr ''https://site.com/img/x.png''"
    by simp
  have b: "scrape_assets ex_env ''https://site.com/'' ex_soup_inline
       = [(''images'', []), (''stylesheets'', []), (''scripts'', [])]"
    using assets_skip_inline_sources [of ex_env "''https://site.com/''" ex_soup_inline] 3
    by blast
  show ?thesis using a b by (rule conjI)
qed

section \<open>Properties of the store and of the scrape endpoint\<close>

text \<open>The loader on each state of the file, and the values that are not a dict.\<close>

lemma load_Absent [simp]: "load_scraped_data Absent = Inr (Dict [])"
  by (simp add: load_scraped_data_def data_file_exists_def)

lemma load_Invalid [simp]: "load_scraped_data Invalid_JSON = Inr (Dict [])"
  by (simp add: load_scraped_data_def data_file_exists_def json_load_def)

lemma load_Stored [simp]: "load_scraped_data (Stored data) = Inr (Dict data)"
  by (simp add: load_scraped_data_def data_file_exists_def json_load_def)

lemma load_Not_A_Dict [simp]: "load_scraped_data (Not_A_Dict v) = Inr (Other v)"
  by (simp add: load_scraped_data_def data_file_exists_def json_load_def)

lemma load_Unreadable [simp]: "load_scraped_data (Unreadable m) = Inl (Exception m)"
  by (simp add: load_scraped_data_def data_file_exists_def json_load_def)

lemma setitem_Other: "\<exists>m. setitem (Other x) k v = Inl (Exception m)"
  by (cases x) simp_all

lemma setitem_Inr:
  assumes "setitem v k e = Inr d"
  shows "\<exists>data. v = Dict data \<and> d = AList.update k e data"
proof (cases v)
  case (Dict data)
  then show ?thesis using assms by simp
next
  case (Other x)
  then show ?thesis using assms setitem_Other [of x k e] by auto
qed

text \<open>The record and the summary of a scrape whose steps all returned.\<close>

lemma scrape_try_returns:
  assumes "http_get env url = Inr html" and "html_parse env html = Inr sp"
    and "browser_launch env = None" and "browser_close env = None"
  shows "\<exists>entry result.
           (\<forall>data file. scrape_try env url uid (Dict data) file
                          = (Inr result, Stored (AList.update uid entry data)))
         \<and> sd_id entry = uid \<and> sd_url entry = url \<and> sd_html_content entry = Some html
         \<and> sd_assets entry = Some (scrape_assets env url sp)
         \<and> sd_title entry = (case soup_title sp of Some t \<Rightarrow> t | None \<Rightarrow> Some ''Title not found'')
         \<and> sd_screenshot_path entry =
             (case page_capture env url (path_join SCREENSHOTS_DIR (uid @ ''.png'')) of
                None \<Rightarrow> Some (''/public/screenshots/'' @ uid @ ''.png'') | Some e \<Rightarrow> None)
         \<and> res_success result \<and> res_id result = uid
         \<and> res_screenshot_url result = sd_screenshot_path entry"
proof -
  define shot where "shot =
    (case page_capture env url (path_join SCREENSHOTS_DIR (uid @ ''.png'')) of
       None \<Rightarrow> Some (''/public/screenshots/'' @ uid @ ''.png'') | Some e \<Rightarrow> None)"
  define title where "title =
    (case soup_title sp of Some t \<Rightarrow> t | None \<Rightarrow> Some ''Title not found'')"
  define entry where "entry =
    \<lparr>sd_id = uid, sd_url = url, sd_html_content = Some html, sd_screenshot_path = shot,
     sd_assets = Some (scrape_assets env url sp), sd_title = title\<rparr>"
  define result where "result =
    \<lparr>res_success = True, res_url = url, res_title = title, res_id = uid,
     res_html_content_length = length html, res_screenshot_url = shot,
     res_assets_count =
       [(''images'', asset_count (scrape_assets env url sp) ''images''),
        (''stylesheets'', asset_count (scrape_assets env url sp) ''stylesheets''),
        (''scripts'', asset_count (scrape_assets env url sp) ''scripts''),
        (''links'', 0)]\<rparr>"
  have t: "scrape_try env url uid (Dict data) fl
             = (Inr result, Stored (AList.update uid entry data))"
    for data fl
    using assms
    by (simp add: scrape_try_def Let_def save_scraped_data_def entry_def result_def
        shot_def title_def cong: option.case_cong)
  have e: "sd_id entry = uid" "sd_url entry = url" "sd_html_content entry = Some html"
    "sd_assets entry = Some (scrape_assets env url sp)" "sd_screenshot_path entry = shot"
    "sd_title entry = title"
    by (simp_all add: entry_def)
  have r: "res_success result" "res_id result = uid" "res_screenshot_url result = shot"
    by (simp_all add: result_def)
  show ?thesis
    by (rule exI [of _ entry], rule exI [of _ result]) (simp add: t e r shot_def title_def)
qed

lemma scrape_try_raises:
  assumes "fst (scrape_try env url uid v file) = Inl e"
  shows "snd (scrape_try env url uid v file) = file"
  using assms
  by (simp add: scrape_try_def Let_def split: sum.splits option.splits)

lemma scrape_try_Inr:
  assumes "scrape_try env url uid v file = (Inr result, file')"
  shows "\<exists>html sp data. http_get env url = Inr html \<and> html_parse env html = Inr sp
           \<and> browser_launch env = None \<and> browser_close env = None \<and> v = Dict data"
  using assms
  by (auto simp: scrape_try_def Let_def split: sum.splits option.splits dest: setitem_Inr)

lemma scrape_website_try:
  assumes "load_scraped_data file = Inr v"
  shows "scrape_website env url file =
     (case scrape_try env url (url_id url) v file of
        (Inl exc, file') \<Rightarrow> (Inl (scrape_except url exc), file')
      | (Inr result, file') \<Rightarrow> (Inr result, file'))"
  using assms by (simp add: scrape_website_def Let_def)

lemma scrape_website_uncaught:
  assumes "load_scraped_data file = Inl x"
  shows "scrape_website env url file = (Inl (Uncaught x), file)"
  using assms by (simp add: scrape_website_def Let_def)

text \<open>
  Claim C3 against the code. The inner \<open>try\<close> makes the screenshot best-effort: when
  \<open>page.goto\<close> or \<open>page.screenshot\<close> raises, the path is set to \<open>None\<close>, the message
  \<open>Could not take screenshot\<close> is printed and the scrape goes on. But
  \<open>chromium.launch()\<close> and \<open>new_page()\<close> stand before that \<open>try\<close>: when the browser does
  not start (the fetch and the parse have succeeded), the exception reaches the outer
  handler, the caller gets status 500 and nothing is stored.
\<close>

theorem scrape_fails_when_browser_fails:
  "http_get ex_env_no_browser ''https://site.com/'' = Inr ''<html></html>''
   \<and> html_parse ex_env_no_browser ''<html></html>'' = Inr ex_soup
   \<and> scrape_website ex_env_no_browser ''https://site.com/'' Absent =
       (Inl (HTTPException 500 ''An unexpected error occurred: Executable does not exist''),
        Absent)"
  by (simp add: scrape_website_def scrape_try_def ex_env_no_browser_def ex_env_def Let_def)

text \<open>
  The same when \<open>browser.close()\<close> raises in the \<open>finally\<close>, after a capture that timed
  out and was caught.
\<close>

lemma scrape_fails_when_close_fails:
  "page_capture ex_env_close_fails ''https://site.com/''
       (path_join SCREENSHOTS_DIR (url_id ''https://site.com/'' @ ''.png''))
     = Some (Exception ''Timeout 90000ms exceeded'')
   \<and> scrape_website ex_env_close_fails ''https://site.com/'' Absent =
       (Inl (HTTPException 500 ''An unexpected error occurred: Target closed''), Absent)"
  by (simp add: scrape_website_def scrape_try_def ex_env_close_fails_def ex_env_def Let_def)

text \<open>
  The path on which the code does what the claim says: the fetch and the parse succeed,
  the store loads as a dict, the browser starts and closes, and \<open>page.goto\<close> or
  \<open>page.screenshot\<close> raises (any exception). Then the scrape completes: the record
  stored under the id has \<open>html_content\<close> present and \<open>screenshot_path\<close> absent, the
  result has \<open>success\<close> set and no screenshot URL.
\<close>

lemma scrape_survives_page_failure:
  assumes "http_get env url = Inr html" and "html_parse env html = Inr sp"
    and "browser_launch env = None" and "browser_close env = None"
    and "page_capture env url (path_join SCREENSHOTS_DIR (url_id url @ ''.png'')) = Some e"
    and d: "load_scraped_data file = Inr (Dict data)"
  shows "\<exists>result entry.
           scrape_website env url file = (Inr result, Stored (AList.update (url_id url) entry data))
         \<and> map_of (AList.update (url_id url) entry data) (url_id url) = Some entry
         \<and> sd_html_content entry = Some html \<and> sd_screenshot_path entry = None
         \<and> res_success result \<and> res_screenshot_url result = None"
proof -
  from scrape_try_returns [OF assms(1-4), of "url_id url"]
  obtain entry result where
    t: "\<forall>data file. scrape_try env url (url_id url) (Dict data) file
          = (Inr result, Stored (AList.update (url_id url) entry data))"
    and f: "sd_html_content entry = Some html"
      "sd_screenshot_path entry =
             (case page_capture env url (path_join SCREENSHOTS_DIR (url_id url @ ''.png'')) of
                None \<Rightarrow> Some (''/public/screenshots/'' @ url_id url @ ''.png'') | Some e \<Rightarrow> None)"
      "res_success result" "res_screenshot_url result = sd_screenshot_path entry"
    by (elim exE conjE) (rule that)
  have 1: "scrape_website env url file
             = (Inr result, Stored (AList.update (url_id url) entry data))"
    using t by (simp add: scrape_website_try [OF d])
  have 2: "sd_screenshot_path entry = None" using f(2) assms(5) by simp
  have 3: "map_of (AList.update (url_id url) entry data) (url_id url) = Some entry"
    by (simp add: update_conv')
  show ?thesis
    by (rule exI [of _ result], rule exI [of _ entry]) (simp add: 1 2 3 f)
qed

text \<open>
  Claim C4: when the fetch raises (a transport error, an HTTP-status error) or the parse
  raises, an error reaches the caller and the store file is what it was: nothing is
  written. The endpoint gets to the fetch when the store has loaded, and then raises the
  \<open>HTTPException\<close> of the matching \<open>except\<close> clause.
\<close>

theorem scrape_failure_leaves_store:
  assumes "http_get env url = Inl e
           \<or> (\<exists>html. http_get env url = Inr html \<and> html_parse env html = Inl e)"
  shows "snd (scrape_website env url file) = file
         \<and> (\<exists>x. fst (scrape_website env url file) = Inl x)
         \<and> (\<forall>v. load_scraped_data file = Inr v \<longrightarrow>
               scrape_website env url file = (Inl (scrape_except url e), file))
         \<and> (\<exists>code detail. scrape_except url e = HTTPException code detail)"
proof -
  have t: "scrape_try env url (url_id url) v file = (Inl e, file)" for v
    using assms by (auto simp: scrape_try_def)
  have a: "scrape_website env url file = (Inl (scrape_except url e), file)"
    if "load_scraped_data file = Inr v" for v
    using t [of v] by (simp add: scrape_website_try [OF that])
  have b: "\<exists>code detail. scrape_except url e = HTTPException code detail"
    by (cases e) simp_all
  have c: "snd (scrape_website env url file) = file
           \<and> (\<exists>x. fst (scrape_website env url file) = Inl x)"
  proof (cases "load_scraped_data file")
    case (Inl x)
    then show ?thesis by (simp add: scrape_website_uncaught)
  next
    case (Inr v)
    then show ?thesis by (simp add: a)
  qed
  show ?thesis using a b c by blast
qed

theorem scrape_failure_leaves_store_witness:
  "scrape_website ex_env_404 ''https://site.com/missing'' Invalid_JSON =
     (Inl (HTTPException 404
        ''HTTP error 404 occurred while fetching https://site.com/missing: Not Found''),
      Invalid_JSON)"
proof -
  have h: "http_get ex_env_404 ''https://site.com/missing''
             = Inl (HTTPStatusError ''Client error'' 404 ''Not Found'')"
    by (simp add: ex_env_404_def)
  have l: "load_scraped_data Invalid_JSON = Inr (Dict [])"
    by simp
  have s: "str_nat 404 = ''404''"
    by code_simp
  have "scrape_website ex_env_404 ''https://site.com/missing'' Invalid_JSON =
          (Inl (scrape_except ''https://site.com/missing''
                  (HTTPStatusError ''Client error'' 404 ''Not Found'')), Invalid_JSON)"
    using scrape_failure_leaves_store [OF disjI1, OF h, of Invalid_JSON] l by blast
  then show ?thesis by (simp add: s)
qed

text \<open>Every failure of the endpoint leaves the file as it was.\<close>

lemma scrape_website_failure_file:
  assumes "fst (scrape_website env url file) = Inl x"
  shows "snd (scrape_website env url file) = file"
proof (cases "load_scraped_data file")
  case (Inl e)
  then show ?thesis by (simp add: scrape_website_uncaught)
next
  case (Inr v)
  note d = this
  obtain r f' where t: "scrape_try env url (url_id url) v file = (r, f')"
    by (cases "scrape_try env url (url_id url) v file")
  show ?thesis
  proof (cases r)
    case (Inl exc)
    then have "f' = file" using scrape_try_raises [of env url "url_id url" v "file" exc] t by simp
    then show ?thesis using t Inl by (simp add: scrape_website_try [OF d])
  next
    case (Inr res)
    then show ?thesis using assms t by (simp add: scrape_website_try [OF d])
  qed
qed

text \<open>What a scrape that returns has stored.\<close>

lemma scrape_website_returns:
  assumes "scrape_website env url file = (Inr result, file')"
  shows "\<exists>html sp entry.
           http_get env url = Inr html \<and> html_parse env html = Inr sp
         \<and> browser_launch env = None \<and> browser_close env = None
         \<and> (\<forall>f data. load_scraped_data f = Inr (Dict data) \<longrightarrow>
                (\<exists>res. scrape_website env url f
                         = (Inr res, Stored (AList.update (url_id url) entry data))))
         \<and> (\<exists>data. load_scraped_data file = Inr (Dict data))
         \<and> sd_id entry = url_id url \<and> sd_url entry = url
         \<and> sd_html_content entry = Some html
         \<and> sd_assets entry = Some (scrape_assets env url sp)"
proof -
  obtain v where d: "load_scraped_data file = Inr v"
    using assms by (cases "load_scraped_data file") (simp_all add: scrape_website_uncaught)
  obtain r f' where t: "scrape_try env url (url_id url) v file = (r, f')"
    by (cases "scrape_try env url (url_id url) v file")
  have "r = Inr result"
    using assms t by (cases r) (simp_all add: scrape_website_try [OF d])
  then have "scrape_try env url (url_id url) v file = (Inr result, f')"
    using t by simp
  from scrape_try_Inr [OF this] obtain html sp data0 where
    s: "http_get env url = Inr html" "html_parse env html = Inr sp"
       "browser_launch env = None" "browser_close env = None"
    and v: "v = Dict data0"
    by (elim exE conjE) (rule that)
  have l: "\<exists>data. load_scraped_data file = Inr (Dict data)"
    using d v by simp
  obtain entry res where
    a: "\<forall>data file. scrape_try env url (url_id url) (Dict data) file
                          = (Inr res, Stored (AList.update (url_id url) entry data))"
    and e: "sd_id entry = url_id url" "sd_url entry = url" "sd_html_content entry = Some html"
      "sd_assets entry = Some (scrape_assets env url sp)"
    using scrape_try_returns [OF s, of "url_id url"] by (elim exE conjE) (rule that)
  have "\<exists>res. scrape_website env url f = (Inr res, Stored (AList.update (url_id url) entry data))"
    if "load_scraped_data f = Inr (Dict data)" for f data
    using a by (simp add: scrape_website_try [OF that])
  then have "\<forall>f data. load_scraped_data f = Inr (Dict data) \<longrightarrow>
                (\<exists>res. scrape_website env url f
                         = (Inr res, Stored (AList.update (url_id url) entry data)))"
    by simp
  then show ?thesis
    by (intro exI [of _ html] exI [of _ sp] exI [of _ entry]) (simp only: s e l simp_thms)
qed

text \<open>One request takes a store to itself or to the store with one entry assigned.\<close>

lemma scrape_website_step:
  assumes "load_scraped_data file = Inr (Dict data)"
  shows "snd (scrape_website env url file) = file
         \<or> (\<exists>entry. snd (scrape_website env url file) = Stored (AList.update (url_id url) entry data)
               \<and> (\<exists>a. sd_assets entry = Some a
                        \<and> map fst a = [''images'', ''stylesheets'', ''scripts'']))"
proof (cases "fst (scrape_website env url file)")
  case (Inl x)
  then show ?thesis using scrape_website_failure_file by blast
next
  case (Inr result)
  then have "scrape_website env url file = (Inr result, snd (scrape_website env url file))"
    by (metis prod.collapse)
  from scrape_website_returns [OF this] obtain sp entry where
    a: "\<forall>f data. load_scraped_data f = Inr (Dict data) \<longrightarrow>
                (\<exists>res. scrape_website env url f
                         = (Inr res, Stored (AList.update (url_id url) entry data)))"
    and e: "sd_assets entry = Some (scrape_assets env url sp)"
    by (elim exE conjE) (rule that)
  obtain res where "scrape_website env url file
                      = (Inr res, Stored (AList.update (url_id url) entry data))"
    using a assms by blast
  then have "snd (scrape_website env url file) = Stored (AList.update (url_id url) entry data)"
    by simp
  then show ?thesis using e scrape_assets_keys by blast
qed

text \<open>
  Over a run of requests the keys of the store stay distinct, and every key is a key
  of the first store or the id of a requested URL.
\<close>

lemma scrape_all_invariant:
  assumes "load_scraped_data file = Inr (Dict data)" and "distinct (map fst data)"
  shows "\<exists>data'. load_scraped_data (scrape_all reqs file) = Inr (Dict data')
           \<and> distinct (map fst data')
           \<and> set (map fst data') \<subseteq> set (map fst data) \<union> url_id ` snd ` set reqs"
  using assms
proof (induction reqs arbitrary: "file" data)
  case Nil
  then show ?case by simp
next
  case (Cons req reqs)
  obtain env url where req: "req = (env, url)" by (cases req)
  let ?f = "snd (scrape_website env url file)"
  have "\<exists>d. load_scraped_data ?f = Inr (Dict d) \<and> distinct (map fst d)
            \<and> set (map fst d) \<subseteq> insert (url_id url) (set (map fst data))"
    using scrape_website_step [OF Cons.prems(1), of env url] Cons.prems
    by (auto simp: distinct_update dom_update)
  then obtain d where d: "load_scraped_data ?f = Inr (Dict d)" "distinct (map fst d)"
    "set (map fst d) \<subseteq> insert (url_id url) (set (map fst data))"
    by blast
  obtain data' where "load_scraped_data (scrape_all reqs ?f) = Inr (Dict data')"
    "distinct (map fst data')" "set (map fst data') \<subseteq> set (map fst d) \<union> url_id ` snd ` set reqs"
    using Cons.IH [OF d(1,2)] by blast
  then show ?case using d(3) req by auto
qed

text \<open>
  Claim C8: over every run of scrape requests, from a store with one entry per id, the
  store has one entry per id and no more entries than the first store had plus the
  distinct ids requested; a scrape that returns assigns its record under the id of its
  URL, so that a URL whose id is a key already leaves the list of keys as it is, and
  the record it stores is the same whatever the store held before.
\<close>

theorem store_one_record_per_id:
  assumes "load_scraped_data file = Inr (Dict data)" and "distinct (map fst data)"
  shows "\<exists>data'. load_scraped_data (scrape_all reqs file) = Inr (Dict data')
          \<and> distinct (map fst data')
          \<and> set (map fst data') \<subseteq> set (map fst data) \<union> url_id ` snd ` set reqs
          \<and> length data' \<le> length data + card (url_id ` snd ` set reqs)
          \<and> (\<forall>env url result file'.
                scrape_website env url (scrape_all reqs file) = (Inr result, file') \<longrightarrow>
                (\<exists>entry. file' = Stored (AList.update (url_id url) entry data')
                   \<and> sd_id entry = url_id url \<and> sd_url entry = url
                   \<and> map_of (AList.update (url_id url) entry data') (url_id url) = Some entry
                   \<and> distinct (map fst (AList.update (url_id url) entry data'))
                   \<and> (url_id url \<in> set (map fst data') \<longrightarrow>
                        map fst (AList.update (url_id url) entry data') = map fst data')
                   \<and> (\<forall>f d r f'. load_scraped_data f = Inr (Dict d)
                                   \<and> scrape_website env url f = (Inr r, f') \<longrightarrow>
                          f' = Stored (AList.update (url_id url) entry d))))"
proof -
  obtain data' where d: "load_scraped_data (scrape_all reqs file) = Inr (Dict data')"
    "distinct (map fst data')" "set (map fst data') \<subseteq> set (map fst data) \<union> url_id ` snd ` set reqs"
    using scrape_all_invariant [OF assms] by blast
  have "length data' = card (set (map fst data'))"
    using d(2) by (metis distinct_card length_map)
  also have "\<dots> \<le> card (set (map fst data) \<union> url_id ` snd ` set reqs)"
    using d(3) by (intro card_mono) auto
  also have "\<dots> \<le> card (set (map fst data)) + card (url_id ` snd ` set reqs)"
    by (rule card_Un_le)
  also have "card (set (map fst data)) = length data"
    using assms(2) by (metis distinct_card length_map)
  finally have l: "length data' \<le> length data + card (url_id ` snd ` set reqs)" by simp
  have r: "\<exists>entry. file' = Stored (AList.update (url_id url) entry data')
                   \<and> sd_id entry = url_id url \<and> sd_url entry = url
                   \<and> map_of (AList.update (url_id url) entry data') (url_id url) = Some entry
                   \<and> distinct (map fst (AList.update (url_id url) entry data'))
                   \<and> (url_id url \<in> set (map fst data') \<longrightarrow>
                        map fst (AList.update (url_id url) entry data') = map fst data')
                   \<and> (\<forall>f d r f'. load_scraped_data f = Inr (Dict d)
                                   \<and> scrape_website env url f = (Inr r, f') \<longrightarrow>
                          f' = Stored (AList.update (url_id url) entry d))"
    if s: "scrape_website env url (scrape_all reqs file) = (Inr result, file')"
    for env url result file'
  proof -
    from scrape_website_returns [OF s] obtain entry where
      a: "\<forall>f data. load_scraped_data f = Inr (Dict data) \<longrightarrow>
                (\<exists>res. scrape_website env url f
                         = (Inr res, Stored (AList.update (url_id url) entry data)))"
      and e: "sd_id entry = url_id url" "sd_url entry = url"
      by (elim exE conjE) (rule that)
    have 1: "file' = Stored (AList.update (url_id url) entry data')"
      using a d(1) s by fastforce
    have 2: "map_of (AList.update (url_id url) entry data') (url_id url) = Some entry"
      by (simp add: update_conv')
    have 3: "distinct (map fst (AList.update (url_id url) entry data'))"
      using d(2) by (rule distinct_update)
    have 4: "url_id url \<in> set (map fst data') \<longrightarrow>
                        map fst (AList.update (url_id url) entry data') = map fst data'"
      by (simp add: update_keys)
    have 5: "\<forall>f d r f'. load_scraped_data f = Inr (Dict d)
                                   \<and> scrape_website env url f = (Inr r, f') \<longrightarrow>
                          f' = Stored (AList.update (url_id url) entry d)"
      using a by fastforce
    show ?thesis
      by (rule exI [of _ entry]) (intro conjI 1 2 3 4 5 e)
  qed
  show ?thesis
    by (rule exI [of _ data']) (use d l r in blast)
qed

lemma ex_reqs_ids: "url_id ` snd ` set ex_reqs = {''site_com_''}"
  by (simp add: ex_reqs_def url_id_def url_id_replaced_def startswith_def)

lemma ex_reqs_run: "\<exists>E. scrape_all ex_reqs Absent = Stored [(''site_com_'', E)]"
  by (simp add: ex_reqs_def scrape_website_def scrape_try_def ex_env_def ex_env_404_def Let_def
      save_scraped_data_def url_id_def url_id_replaced_def startswith_def)

lemma ex_rescrape:
  assumes d: "load_scraped_data f = Inr (Dict data)"
  shows "\<exists>result file'. scrape_website ex_env ''https://site.com/'' f = (Inr result, file')"
  by (simp add: scrape_website_try [OF d] scrape_try_def ex_env_def Let_def)

theorem store_one_record_per_id_witness:
  "\<exists>data'. load_scraped_data (scrape_all ex_reqs Absent) = Inr (Dict data')
      \<and> distinct (map fst data') \<and> length data' \<le> 1
      \<and> (\<exists>entry. snd (scrape_website ex_env ''https://site.com/'' (scrape_all ex_reqs Absent))
                     = Stored (AList.update ''site_com_'' entry data')
                 \<and> map fst (AList.update ''site_com_'' entry data') = map fst data')"
proof -
  have h1: "load_scraped_data Absent = Inr (Dict [])" by simp
  have h2: "distinct (map fst ([] :: store))" by simp
  have u: "url_id ''https://site.com/'' = ''site_com_''"
    by (simp add: url_id_def url_id_replaced_def startswith_def)
  from store_one_record_per_id [OF h1 h2, of ex_reqs]
  obtain data' where d: "load_scraped_data (scrape_all ex_reqs Absent) = Inr (Dict data')"
    "distinct (map fst data')" "length data' \<le> length ([] :: store) + card (url_id ` snd ` set ex_reqs)"
    and r: "\<forall>env url result file'.
                scrape_website env url (scrape_all ex_reqs Absent) = (Inr result, file') \<longrightarrow>
                (\<exists>entry. file' = Stored (AList.update (url_id url) entry data')
                   \<and> sd_id entry = url_id url \<and> sd_url entry = url
                   \<and> map_of (AList.update (url_id url) entry data') (url_id url) = Some entry
                   \<and> distinct (map fst (AList.update (url_id url) entry data'))
                   \<and> (url_id url \<in> set (map fst data') \<longrightarrow>
                        map fst (AList.update (url_id url) entry data') = map fst data')
                   \<and> (\<forall>f d r f'. load_scraped_data f = Inr (Dict d)
                                   \<and> scrape_website env url f = (Inr r, f') \<longrightarrow>
                          f' = Stored (AList.update (url_id url) entry d)))"
    by (elim exE conjE) (rule that)
  have l: "length data' \<le> 1" using d(3) by (simp add: ex_reqs_ids)
  obtain E where "scrape_all ex_reqs Absent = Stored [(''site_com_'', E)]"
    using ex_reqs_run by blast
  then have k: "url_id ''https://site.com/'' \<in> set (map fst data')"
    using d(1) u by auto
  obtain result file' where
    s: "scrape_website ex_env ''https://site.com/'' (scrape_all ex_reqs Absent) = (Inr result, file')"
    using ex_rescrape [OF d(1)] by blast
  from r s obtain entry where
    "file' = Stored (AList.update (url_id ''https://site.com/'') entry data')"
    "url_id ''https://site.com/'' \<in> set (map fst data') \<longrightarrow>
       map fst (AList.update (url_id ''https://site.com/'') entry data') = map fst data'"
    by blast
  then have "snd (scrape_website ex_env ''https://site.com/'' (scrape_all ex_reqs Absent))
                     = Stored (AList.update ''site_com_'' entry data')
                 \<and> map fst (AList.update ''site_com_'' entry data') = map fst data'"
    using s k u by simp
  then show ?thesis using d(1,2) l by blast
qed

text \<open>
  Claim C9, as stated, fails: only \<open>JSONDecodeError\<close> is caught. A store file that is
  not UTF-8 text is not valid JSON, the read inside \<open>json.load\<close> raises
  \<open>UnicodeDecodeError\<close>, and the loader raises it: the read endpoint, the clone endpoint
  and the scrape endpoint fail with it, uncaught.
\<close>

theorem load_raises_on_unreadable_file:
  "load_scraped_data (Unreadable ''invalid start byte'') = Inl (Exception ''invalid start byte'')
   \<and> get_scraped_data (Unreadable ''invalid start byte'')
       = Inl (Uncaught (Exception ''invalid start byte''))
   \<and> clone_website_with_llm ex_env ''site_com_'' (Unreadable ''invalid start byte'')
       = (Inl (Uncaught (Exception ''invalid start byte'')), [])
   \<and> scrape_website ex_env ''https://site.com/'' (Unreadable ''invalid start byte'')
       = (Inl (Uncaught (Exception ''invalid start byte'')), Unreadable ''invalid start byte'')"
  by (simp add: get_scraped_data_def clone_website_with_llm_def scrape_website_uncaught)

text \<open>
  Claim C9, amended: loading fails only when opening or reading the file raises an
  exception other than \<open>JSONDecodeError\<close>. Without a file, and with a file on which
  \<open>json.load\<close> raises \<open>JSONDecodeError\<close>, \<open>load_scraped_data\<close> returns the empty dict and
  does not raise; on such a file the read endpoint, the clone endpoint and the scrape
  endpoint answer as they do on an empty store, and the store after a scrape is the
  same.
\<close>

theorem load_scraped_data_cases:
  "(load_scraped_data file = Inl e) = (\<exists>m. file = Unreadable m \<and> e = Exception m)
   \<and> load_scraped_data Absent = Inr (Dict [])
   \<and> load_scraped_data Invalid_JSON = Inr (Dict [])
   \<and> get_scraped_data Invalid_JSON = Inr (Dict [])
   \<and> clone_website_with_llm env uid Invalid_JSON = clone_website_with_llm env uid (Stored [])
   \<and> fst (scrape_website env url Invalid_JSON) = fst (scrape_website env url (Stored []))
   \<and> load_scraped_data (snd (scrape_website env url Invalid_JSON))
       = load_scraped_data (snd (scrape_website env url (Stored [])))"
proof (intro conjI)
  show "(load_scraped_data file = Inl e) = (\<exists>m. file = Unreadable m \<and> e = Exception m)"
    by (cases "file") auto
  show "load_scraped_data Absent = Inr (Dict [])" by simp
  show "load_scraped_data Invalid_JSON = Inr (Dict [])" by simp
  show "get_scraped_data Invalid_JSON = Inr (Dict [])" by (simp add: get_scraped_data_def)
  show "clone_website_with_llm env uid Invalid_JSON = clone_website_with_llm env uid (Stored [])"
    by (simp add: clone_website_with_llm_def)
  have i: "load_scraped_data Invalid_JSON = Inr (Dict [])"
    and e: "load_scraped_data (Stored []) = Inr (Dict [])"
    by simp_all
  obtain r f' where t: "scrape_try env url (url_id url) (Dict []) Invalid_JSON = (r, f')"
    by (cases "scrape_try env url (url_id url) (Dict []) Invalid_JSON")
  have t': "scrape_try env url (url_id url) (Dict []) (Stored [])
              = (r, if isl r then Stored [] else f')"
    using t by (auto simp: scrape_try_def Let_def split: sum.splits option.splits)
  have f: "isl r \<Longrightarrow> f' = Invalid_JSON"
    using t scrape_try_raises [of env url "url_id url" "Dict []" Invalid_JSON] by (cases r) auto
  show "fst (scrape_website env url Invalid_JSON) = fst (scrape_website env url (Stored []))"
    using t t' by (cases r) (simp_all add: scrape_website_try [OF i] scrape_website_try [OF e])
  show "load_scraped_data (snd (scrape_website env url Invalid_JSON))
       = load_scraped_data (snd (scrape_website env url (Stored [])))"
    using t t' f by (cases r) (simp_all add: scrape_website_try [OF i] scrape_website_try [OF e])
qed

text \<open>
  A store file that holds a JSON document other than an object is loaded as it is. The
  scrape endpoint then fails at the assignment, after the screenshot, with status 500
  and the file unchanged; the clone endpoint answers a list by 404 unless the id is one
  of its elements, and fails at the membership test, uncaught, on \<open>None\<close>.
\<close>

lemma non_dict_examples:
  "load_scraped_data (Not_A_Dict (Py_list [])) = Inr (Other (Py_list []))
   \<and> scrape_website ex_env ''https://site.com/'' (Not_A_Dict (Py_list [])) =
       (Inl (HTTPException 500
          ''An unexpected error occurred: list indices must be integers or slices, not str''),
        Not_A_Dict (Py_list []))
   \<and> clone_website_with_llm ex_env ''site_com_'' (Not_A_Dict (Py_list [])) =
       (Inl (HTTPException 404 ''Scraped data not found for this URL ID.''), [])
   \<and> clone_website_with_llm ex_env ''site_com_'' (Not_A_Dict Py_None) =
       (Inl (Uncaught (Exception
          (''argument of type '' @ quoted ''NoneType'' @ '' is not iterable''))), [])"
  by (simp add: scrape_website_def scrape_try_def clone_website_with_llm_def ex_env_def Let_def)

lemma snd_set_update: "snd ` set (AList.update k v al) \<subseteq> insert v (snd ` set al)"
proof (induction al)
  case Nil
  show ?case by simp
next
  case (Cons p al)
  show ?case
  proof (cases "fst p = k")
    case True
    then show ?thesis by auto
  next
    case False
    then show ?thesis using Cons.IH by auto
  qed
qed

lemma scrape_all_three_keys:
  assumes "load_scraped_data file = Inr (Dict data)" and "list_all three_keys (map snd data)"
  shows "\<exists>data'. load_scraped_data (scrape_all reqs file) = Inr (Dict data')
           \<and> list_all three_keys (map snd data')"
  using assms
proof (induction reqs arbitrary: "file" data)
  case Nil
  then show ?case by simp
next
  case (Cons req reqs)
  obtain env url where req: "req = (env, url)" by (cases req)
  define f where "f = snd (scrape_website env url file)"
  have "\<exists>d. load_scraped_data f = Inr (Dict d) \<and> list_all three_keys (map snd d)"
  proof -
    from scrape_website_step [OF Cons.prems(1), of env url]
    show ?thesis
    proof (elim disjE exE conjE)
      assume "snd (scrape_website env url file) = file"
      then have "f = file" by (simp add: f_def)
      then show ?thesis using Cons.prems by blast
    next
      fix entry a
      assume 2: "snd (scrape_website env url file) = Stored (AList.update (url_id url) entry data)"
        and 3: "sd_assets entry = Some a" "map fst a = [''images'', ''stylesheets'', ''scripts'']"
      have g: "three_keys entry" using 3 by (simp add: three_keys_def)
      have "\<forall>r \<in> snd ` set data. three_keys r"
        using Cons.prems(2) by (simp add: list_all_iff)
      then have "\<forall>r \<in> snd ` set (AList.update (url_id url) entry data). three_keys r"
        using snd_set_update [of "url_id url" entry data] g by blast
      then have "list_all three_keys (map snd (AList.update (url_id url) entry data))"
        by (simp add: list_all_iff)
      moreover have "load_scraped_data f = Inr (Dict (AList.update (url_id url) entry data))"
        using 2 by (simp add: f_def)
      ultimately show ?thesis by blast
    qed
  qed
  then obtain d where d: "load_scraped_data f = Inr (Dict d)" "list_all three_keys (map snd d)"
    by blast
  have "scrape_all (req # reqs) file = scrape_all reqs f"
    by (simp add: req f_def)
  then show ?case using Cons.IH [OF d] by simp
qed

text \<open>
  Claim C10: the record that a scrape stores under its id has an \<open>assets\<close> dict with the
  keys \<open>images\<close>, \<open>stylesheets\<close>, \<open>scripts\<close> and no other, empty lists included; and
  when every record of a store is so, every record is so after any run of scrape
  requests (from no file, every record of the store).
\<close>

theorem stored_assets_three_keys:
  "(scrape_website env url file = (Inr result, file') \<longrightarrow>
      (\<exists>data' entry. load_scraped_data file' = Inr (Dict data')
          \<and> map_of data' (url_id url) = Some entry \<and> three_keys entry))
   \<and> (load_scraped_data file = Inr (Dict data) \<and> list_all three_keys (map snd data) \<longrightarrow>
      (\<exists>data'. load_scraped_data (scrape_all reqs file) = Inr (Dict data')
          \<and> list_all three_keys (map snd data')))"
proof (intro conjI impI)
  assume s: "scrape_website env url file = (Inr result, file')"
  from scrape_website_returns [OF s] obtain sp entry d where
    a: "\<forall>f data. load_scraped_data f = Inr (Dict data) \<longrightarrow>
                (\<exists>res. scrape_website env url f
                         = (Inr res, Stored (AList.update (url_id url) entry data)))"
    and e: "sd_assets entry = Some (scrape_assets env url sp)"
    and d: "load_scraped_data file = Inr (Dict d)"
    by (elim exE conjE) (rule that)
  from a d obtain res where
    "scrape_website env url file = (Inr res, Stored (AList.update (url_id url) entry d))"
    by blast
  then have f: "file' = Stored (AList.update (url_id url) entry d)"
    using s by simp
  have k: "three_keys entry"
    by (simp add: three_keys_def e scrape_assets_keys)
  show "\<exists>data' entry. load_scraped_data file' = Inr (Dict data')
          \<and> map_of data' (url_id url) = Some entry \<and> three_keys entry"
    by (rule exI [of _ "AList.update (url_id url) entry d"], rule exI [of _ entry])
       (simp add: f k update_conv')
next
  assume h: "load_scraped_data file = Inr (Dict data) \<and> list_all three_keys (map snd data)"
  show "\<exists>data'. load_scraped_data (scrape_all reqs file) = Inr (Dict data')
          \<and> list_all three_keys (map snd data')"
    by (rule scrape_all_three_keys [OF conjunct1 [OF h] conjunct2 [OF h]])
qed

theorem stored_assets_three_keys_witness:
  "(\<exists>data' entry.
       load_scraped_data (snd (scrape_website ex_env ''https://site.com/'' Absent)) = Inr (Dict data')
     \<and> map_of data' ''site_com_'' = Some entry \<and> three_keys entry)
   \<and> (\<exists>data'. load_scraped_data (scrape_all ex_reqs Absent) = Inr (Dict data') \<and> data' \<noteq> []
        \<and> list_all three_keys (map snd data'))"
proof -
  have u: "url_id ''https://site.com/'' = ''site_com_''"
    by (simp add: url_id_def url_id_replaced_def startswith_def)
  obtain result file' where
    s: "scrape_website ex_env ''https://site.com/'' Absent = (Inr result, file')"
    using ex_rescrape [OF load_Absent] by blast
  have h: "load_scraped_data Absent = Inr (Dict []) \<and> list_all three_keys (map snd ([] :: store))"
    by simp
  note t = stored_assets_three_keys
    [of ex_env "''https://site.com/''" Absent result file' "[]" ex_reqs]
  have "\<exists>data' entry. load_scraped_data file' = Inr (Dict data')
          \<and> map_of data' (url_id ''https://site.com/'') = Some entry \<and> three_keys entry"
    by (rule mp [OF conjunct1 [OF t] s])
  then have a: "\<exists>data' entry.
       load_scraped_data (snd (scrape_website ex_env ''https://site.com/'' Absent)) = Inr (Dict data')
     \<and> map_of data' ''site_com_'' = Some entry \<and> three_keys entry"
    by (simp only: u s snd_conv)
  obtain data' where d: "load_scraped_data (scrape_all ex_reqs Absent) = Inr (Dict data')"
    and g: "list_all three_keys (map snd data')"
    using mp [OF conjunct2 [OF t] h] by (elim exE conjE) (rule that)
  obtain E where "scrape_all ex_reqs Absent = Stored [(''site_com_'', E)]"
    using ex_reqs_run by blast
  then have n: "data' \<noteq> []" using d by auto
  have b: "\<exists>data'. load_scraped_data (scrape_all ex_reqs Absent) = Inr (Dict data') \<and> data' \<noteq> []
        \<and> list_all three_keys (map snd data')"
    using d n g by (intro exI [of _ data'] conjI)
  show ?thesis using a b by (rule conjI)
qed

section \<open>Properties of the clone endpoint\<close>

text \<open>
  Claim C5: a clone request for an id that is not a key of the store is answered with
  status 404, and one for a record whose \<open>html_content\<close> and \<open>screenshot_path\<close> are both
  absent with status 400; in both cases no request has been sent to the model.
\<close>

theorem clone_rejects_before_model_call:
  "(load_scraped_data file = Inr (Dict data) \<and> map_of data uid = None \<longrightarrow>
      clone_website_with_llm env uid file =
        (Inl (HTTPException 404 ''Scraped data not found for this URL ID.''), []))
   \<and> (load_scraped_data file = Inr (Dict data) \<and> map_of data uid = Some r
        \<and> sd_html_content r = None \<and> sd_screenshot_path r = None \<longrightarrow>
      clone_website_with_llm env uid file =
        (Inl (HTTPException 400 ''No HTML content or screenshot available for cloning.''), []))"
  by (simp add: clone_website_with_llm_def truthy_def)

theorem clone_rejects_before_model_call_witness:
  "clone_website_with_llm ex_env ''missing_com'' (Stored ex_store) =
     (Inl (HTTPException 404 ''Scraped data not found for this URL ID.''), [])
   \<and> clone_website_with_llm ex_env ''empty_com'' (Stored ex_store) =
     (Inl (HTTPException 400 ''No HTML content or screenshot available for cloning.''), [])"
proof -
  have l: "load_scraped_data (Stored ex_store) = Inr (Dict ex_store)" by simp
  have a: "map_of ex_store ''missing_com'' = None" by (simp add: ex_store_def)
  have b: "map_of ex_store ''empty_com'' = Some (snd (hd ex_store))"
    "sd_html_content (snd (hd ex_store)) = None" "sd_screenshot_path (snd (hd ex_store)) = None"
    by (simp_all add: ex_store_def)
  show ?thesis
    using clone_rejects_before_model_call [of "Stored ex_store" ex_store "''missing_com''" ex_env]
      clone_rejects_before_model_call [of "Stored ex_store" ex_store "''empty_com''"
        ex_env "snd (hd ex_store)"] l a b
    by blast
qed

section \<open>Properties of the repair of the model's text\<close>


lemma endswith_append: "endswith (s @ p) p"
  by (simp add: endswith_def)






lemma lstrip_head: "lstrip s = [] \<or> \<not> isspace (hd (lstrip s))"
  unfolding lstrip_def by (metis hd_dropWhile)





lemma lstrip_eq_head: "lstrip s = s \<Longrightarrow> s = [] \<or> \<not> isspace (hd s)"
  using lstrip_head [of s] by simp




















end
